theory Spec2Isabelle
  imports Main "HOL-Library.Sublist"
begin

section \<open>Text primitives of the Python runtime\<close>

text \<open>
  Python text is modelled as \<^typ>\<open>string\<close>, one \<^typ>\<open>char\<close> per code point, so the
  model covers code points below 256. \<open>isspace\<close> is the predicate behind both
  \<^verbatim>\<open>\s\<close> of \<^verbatim>\<open>re\<close> and \<^verbatim>\<open>str.strip\<close>/\<^verbatim>\<open>str.lstrip\<close> on that range.
\<close>

definition isspace :: "char \<Rightarrow> bool" where
  "isspace c = (of_char c \<in> {9, 10, 11, 12, 13, 28, 29, 30, 31, 32, 133, 160 :: nat})"

definition lstrip :: "string \<Rightarrow> string" where
  "lstrip s = dropWhile isspace s"

definition rstrip :: "string \<Rightarrow> string" where
  "rstrip s = rev (dropWhile isspace (rev s))"

definition strip :: "string \<Rightarrow> string" where
  "strip s = rstrip (lstrip s)"

text \<open>\<^verbatim>\<open>s.split(',')\<close>: the fragments between commas; never an empty list.\<close>

fun split_comma :: "string \<Rightarrow> string list" where
  "split_comma [] = [[]]"
| "split_comma (c # cs) =
     (if c = CHR '','' then [] # split_comma cs
      else (c # hd (split_comma cs)) # tl (split_comma cs))"

section \<open>Front matter: \<^verbatim>\<open>FRONT_MATTER_PATTERN\<close> and \<^verbatim>\<open>parse_note_content\<close>\<close>

text \<open>
  \<^verbatim>\<open>FRONT_MATTER_PATTERN = re.compile(r'^---\s*$(.*?)^---\s*', re.DOTALL | re.MULTILINE)\<close>,
  used through \<^verbatim>\<open>.match\<close>, which anchors the pattern at offset 0. The matcher below
  follows the backtracking order of the pattern, piece by piece.

  \<open>fm_close prev s\<close> is the tail \<^verbatim>\<open>(.*?)^---\s*\<close> run at a position whose preceding
  character is \<open>prev\<close>: the lazy group first tries to stop here (\<^verbatim>\<open>^\<close> holds after a
  newline, then the literal \<^verbatim>\<open>---\<close>, then greedy whitespace), and otherwise takes one
  more character, any character under \<^verbatim>\<open>DOTALL\<close>. It returns the captured group and
  the text after the end of the match.
\<close>

fun fm_close :: "char \<Rightarrow> string \<Rightarrow> (string \<times> string) option" where
  "fm_close prev s =
     (if prev = CHR ''\<newline>'' \<and> prefix ''---'' s then Some ([], dropWhile isspace (drop 3 s))
      else (case s of
              [] \<Rightarrow> None
            | c # cs \<Rightarrow> map_option (\<lambda>(g, r). (c # g, r)) (fm_close c cs)))"

text \<open>
  \<open>fm_open prev s\<close> is \<^verbatim>\<open>\s*$\<close> followed by the tail, after the opening \<^verbatim>\<open>---\<close>:
  the greedy \<^verbatim>\<open>\s*\<close> takes a whitespace character when it can and gives it back
  when the rest fails; \<^verbatim>\<open>$\<close> under \<^verbatim>\<open>MULTILINE\<close> holds at the end of the text and
  before a newline.
\<close>

definition at_eol :: "string \<Rightarrow> bool" where
  "at_eol s = (case s of [] \<Rightarrow> True | c # _ \<Rightarrow> c = CHR ''\<newline>'')"

fun fm_open :: "char \<Rightarrow> string \<Rightarrow> (string \<times> string) option" where
  "fm_open prev [] = (if at_eol [] then fm_close prev [] else None)"
| "fm_open prev (c # cs) =
     (case (if isspace c then fm_open c cs else None) of
        Some r \<Rightarrow> Some r
      | None \<Rightarrow> if at_eol (c # cs) then fm_close prev (c # cs) else None)"

text \<open>\<^verbatim>\<open>FRONT_MATTER_PATTERN.match(full_content)\<close>: \<^verbatim>\<open>(match.group(1), full_content[match.end():])\<close>.\<close>

definition front_matter_match :: "string \<Rightarrow> (string \<times> string) option" where
  "front_matter_match full =
     (if prefix ''---'' full then fm_open CHR ''-'' (drop 3 full) else None)"

subsection \<open>Values returned by the YAML loader\<close>

text \<open>
  The Python objects \<^verbatim>\<open>yaml.safe_load\<close> builds. \<open>YOther b\<close> stands for the scalars
  this program never inspects beyond their truth value \<open>b\<close> (floats, timestamps, binary).
  A mapping keeps its insertion order.
\<close>

datatype yaml =
    YNull
  | YBool bool
  | YInt int
  | YStr string
  | YOther bool
  | YList "yaml list"
  | YMap "(yaml \<times> yaml) list"

text \<open>Python truth value, as tested by \<^verbatim>\<open>or\<close> and \<^verbatim>\<open>not\<close>.\<close>

fun truthy :: "yaml \<Rightarrow> bool" where
  "truthy YNull = False"
| "truthy (YBool b) = b"
| "truthy (YInt n) = (n \<noteq> 0)"
| "truthy (YStr s) = (s \<noteq> [])"
| "truthy (YOther b) = b"
| "truthy (YList xs) = (xs \<noteq> [])"
| "truthy (YMap kvs) = (kvs \<noteq> [])"

text \<open>\<^verbatim>\<open>a or b\<close>.\<close>

definition py_or :: "yaml \<Rightarrow> yaml \<Rightarrow> yaml" where
  "py_or a b = (if truthy a then a else b)"

subsection \<open>Library functions the program calls\<close>

text \<open>
  The program calls PyYAML, \<^verbatim>\<open>hashlib\<close> and \<^verbatim>\<open>pathlib\<close>; they are parameters of the
  model. \<open>yaml_safe_load\<close> returns \<open>None\<close> where \<^verbatim>\<open>yaml.safe_load\<close> raises
  \<^verbatim>\<open>yaml.YAMLError\<close>; \<open>md5_hexdigest\<close> is \<^verbatim>\<open>hexdigest()\<close> of an MD5 object fed the bytes;
  \<open>path_suffix name\<close> is \<^verbatim>\<open>(attachments_dir / name).suffix\<close>.
\<close>

record libs =
  yaml_safe_load :: "string \<Rightarrow> yaml option"
  yaml_dump :: "yaml \<Rightarrow> string"
  md5_hexdigest :: "string \<Rightarrow> string"
  path_suffix :: "string \<Rightarrow> string"

subsection \<open>Diagnostics\<close>

datatype level = Debug | Info | Warning

datatype message =
    Yaml_error
  | Hash_file_not_found string
  | Scanning
  | Excluding_dirs
  | Skip_excluded "string list"
  | Checking_note "string list"
  | Skip_no_tag string string
  | Processing_note string string
  | Removing_tag string
  | Title_set string
  | Date_set string
  | Bundle_dir string
  | Attachment_missing string
  | Copying string string
  | Updating_links
  | Updating_wikilinks
  | Note_saved string
  | Finished

type_synonym diag = "level \<times> message"

subsection \<open>\<^verbatim>\<open>parse_note_content\<close>\<close>

text \<open>Returns the properties, the body and the diagnostics it logged.\<close>

definition parse_note_content :: "libs \<Rightarrow> string \<Rightarrow> yaml \<times> string \<times> diag list" where
  "parse_note_content L full_content =
     (case front_matter_match full_content of
        None \<Rightarrow> (YMap [], full_content, [])
      | Some (yaml_content, after) \<Rightarrow>
          (case yaml_safe_load L yaml_content of
             Some v \<Rightarrow> (py_or v (YMap []), lstrip after, [])
           | None \<Rightarrow> (YMap [], full_content, [(Warning, Yaml_error)])))"

section \<open>Body markup\<close>

text \<open>
  The lazy group followed by the closing brackets, \<^verbatim>\<open>(.*?)\]\]\<close>, shared by the embed
  and the wiki-link pattern. Neither is compiled with \<^verbatim>\<open>DOTALL\<close>, so the group stops
  at a newline. Returns the group and the text after the match.
\<close>

fun lazy_close :: "string \<Rightarrow> (string \<times> string) option" where
  "lazy_close s =
     (if prefix '']]'' s then Some ([], drop 2 s)
      else (case s of
              [] \<Rightarrow> None
            | c # cs \<Rightarrow>
                if c = CHR ''\<newline>'' then None
                else map_option (\<lambda>(g, r). (c # g, r)) (lazy_close cs)))"

lemma lazy_close_shorter: "lazy_close s = Some (g, r) \<Longrightarrow> length r < length s"
proof (induction s arbitrary: g)
  case Nil
  then show ?case by simp
next
  case (Cons c cs)
  show ?case
  proof (cases "prefix '']]'' (c # cs)")
    case True
    with Cons.prems show ?thesis by auto
  next
    case False
    with Cons.prems obtain g' where "lazy_close cs = Some (g', r)"
      by (auto split: if_splits)
    from Cons.IH [OF this] show ?thesis by simp
  qed
qed

text \<open>
  \<^verbatim>\<open>re.finditer(r'!\[\[(.*?)\]\]', content)\<close>: the \<^verbatim>\<open>group(1)\<close> of every match, left to
  right, the scan resuming after each match. \<^verbatim>\<open>group(0)\<close> of a match is \<open>embed_token\<close>
  of its \<^verbatim>\<open>group(1)\<close>.
\<close>

function find_embeds :: "string \<Rightarrow> string list" where
  "find_embeds [] = []"
| "find_embeds (c # cs) =
     (if prefix ''![['' (c # cs) then
        (case lazy_close (drop 3 (c # cs)) of
           Some (name, rest) \<Rightarrow> name # find_embeds rest
         | None \<Rightarrow> find_embeds cs)
      else find_embeds cs)"
  by pat_completeness auto
termination
proof (relation "measure length")
  show "wf (measure length)" by simp
next
  fix c :: char and cs x2 x y
  assume "lazy_close (drop 3 (c # cs)) = Some x2" and "(x, y) = x2"
  then have "lazy_close (drop 3 (c # cs)) = Some (x, y)" by simp
  from lazy_close_shorter [OF this] have "length y < length (c # cs)" by simp
  then show "(y, c # cs) \<in> measure length" by simp
qed simp_all

definition embed_token :: "string \<Rightarrow> string" where
  "embed_token name = ''![['' @ name @ '']]''"

definition image_link :: "string \<Rightarrow> string" where
  "image_link new_filename = ''![]('' @ new_filename @ '')''"

text \<open>\<^verbatim>\<open>s.replace(old, new)\<close>: every non-overlapping occurrence, left to right.\<close>

fun replace_nonempty :: "string \<Rightarrow> string \<Rightarrow> string \<Rightarrow> nat \<Rightarrow> string" where
  "replace_nonempty old new [] skip = []"
| "replace_nonempty old new (c # cs) skip =
     (if 0 < skip then replace_nonempty old new cs (skip - 1)
      else if prefix old (c # cs) then new @ replace_nonempty old new cs (length old - 1)
      else c # replace_nonempty old new cs 0)"

definition str_replace :: "string \<Rightarrow> string \<Rightarrow> string \<Rightarrow> string" where
  "str_replace old new s =
     (if old = [] then new @ concat (map (\<lambda>c. c # new) s)
      else replace_nonempty old new s 0)"

text \<open>
  \<^verbatim>\<open>wikilink_pattern = r'(?<!\\!)\[\[(.*?)\]\]'\<close>. In the raw string the look-behind
  holds the regex \<^verbatim>\<open>\\!\<close>: an escaped backslash and an exclamation mark, two
  characters. \<open>left\<close> is the text to the left of the current position, reversed.
\<close>

definition wikilink_lookbehind :: "string \<Rightarrow> bool" where
  "wikilink_lookbehind left = (\<not> prefix [CHR ''!'', CHR 0x5C] left)"

definition wikilink_at :: "string \<Rightarrow> string \<Rightarrow> (string \<times> string) option" where
  "wikilink_at left s =
     (if wikilink_lookbehind left \<and> prefix ''[['' s then lazy_close (drop 2 s) else None)"

text \<open>\<^verbatim>\<open>re.search(wikilink_pattern, content)\<close>, as a truth value.\<close>

fun wikilink_search :: "string \<Rightarrow> string \<Rightarrow> bool" where
  "wikilink_search left [] = False"
| "wikilink_search left (c # cs) =
     (wikilink_at left (c # cs) \<noteq> None \<or> wikilink_search (c # left) cs)"

text \<open>\<^verbatim>\<open>re.sub(wikilink_pattern, r'\1', content)\<close>.\<close>

function wikilink_sub :: "string \<Rightarrow> string \<Rightarrow> string" where
  "wikilink_sub left [] = []"
| "wikilink_sub left (c # cs) =
     (case wikilink_at left (c # cs) of
        Some (inner, rest) \<Rightarrow> inner @ wikilink_sub ('']]'' @ rev inner @ ''[['' @ left) rest
      | None \<Rightarrow> c # wikilink_sub (c # left) cs)"
  by pat_completeness auto
termination
proof (relation "measure (\<lambda>(left, s). length s)")
  show "wf (measure (\<lambda>(left, s). length s))" by simp
next
  fix left :: string and c :: char and cs x2 x y
  assume "wikilink_at left (c # cs) = Some x2" and "(x, y) = x2"
  then have "lazy_close (drop 2 (c # cs)) = Some (x, y)"
    by (simp add: wikilink_at_def split: if_splits)
  from lazy_close_shorter [OF this] have "length y < length (c # cs)" by simp
  then show "(('']]'' @ rev x @ ''[['' @ left, y), left, c # cs)
             \<in> measure (\<lambda>(left, s). length s)" by simp
qed simp_all

text \<open>Lines 205--208: the substitution runs only when the search finds a match.\<close>

definition strip_wikilinks :: "string \<Rightarrow> string \<times> diag list" where
  "strip_wikilinks content =
     (if wikilink_search [] content
      then (wikilink_sub [] content, [(Info, Updating_wikilinks)])
      else (content, []))"

section \<open>The file system and its failures\<close>

datatype exc =
    FileNotFoundError
  | PermissionError
  | IsADirectoryError
  | OSError
  | UnicodeDecodeError
  | AttributeError
  | TypeError

text \<open>The file operations of the program; each one can raise.\<close>

datatype fs_op =
    Mkdir_posts
  | Read_note "string list"
  | Mkdir_bundle string
  | Hash_read string
  | Copy2 string string string
  | Write_index string

text \<open>
  What the run reads and cannot change: \<open>attachments name\<close> is the content of
  \<^verbatim>\<open>attachments_dir / name\<close>, \<open>None\<close> where \<^verbatim>\<open>exists()\<close> is false; \<open>faults op\<close> is
  the exception the operation raises, \<open>None\<close> where it succeeds.
\<close>

record env =
  attachments :: "string \<Rightarrow> string option"
  faults :: "fs_op \<Rightarrow> exc option"

text \<open>
  What the run changes: the bundle directories under \<^verbatim>\<open>hugo_posts_dir\<close>, the files in
  them by (directory, file name), and the diagnostics in the order they were logged.
\<close>

record world =
  dirs :: "string set"
  files :: "string \<times> string \<Rightarrow> string option"
  log :: "diag list"

definition logging :: "diag list \<Rightarrow> world \<Rightarrow> world" where
  "logging ds w = w\<lparr>log := log w @ ds\<rparr>"

text \<open>A note found by \<^verbatim>\<open>notes_dir.rglob('*.md')\<close>, its path relative to \<^verbatim>\<open>notes_dir\<close>.\<close>

record vault_note =
  dir_parts :: "string list"
  name :: string
  stem :: string
  raw_text :: string
  now_str :: string

record config =
  filter_tag :: string
  remove_filter_tag :: bool
  exclude_dirs :: "string list list"

section \<open>\<^verbatim>\<open>calculate_md5\<close>\<close>

text \<open>\<^verbatim>\<open>iter(lambda: f.read(4096), b"")\<close>: the chunks read until the empty one.\<close>

function read_chunks :: "nat \<Rightarrow> string \<Rightarrow> string list" where
  "read_chunks n bs = (if take n bs = [] then [] else take n bs # read_chunks n (drop n bs))"
  by pat_completeness auto
termination
  by (relation "measure (\<lambda>(n, bs). length bs)") auto

declare read_chunks.simps [simp del]

lemma read_chunks_concat: "0 < n \<Longrightarrow> foldl (@) acc (read_chunks n bs) = acc @ bs"
proof (induction n bs arbitrary: acc rule: read_chunks.induct)
  case (1 n bs)
  show ?case
  proof (cases "take n bs = []")
    case True
    with "1.prems" have "bs = []" by (cases bs) auto
    then show ?thesis by (subst read_chunks.simps) simp
  next
    case False
    from "1.IH" [OF False "1.prems", of "acc @ take n bs"] False
    show ?thesis by (subst read_chunks.simps) simp
  qed
qed

text \<open>
  The state of a \<^verbatim>\<open>hashlib.md5()\<close> object is the bytes fed to it so far:
  \<^verbatim>\<open>update(chunk)\<close> appends the chunk, \<^verbatim>\<open>hexdigest()\<close> is \<open>md5_hexdigest\<close> of the state.
\<close>

text \<open>
  Returns \<open>Inl e\<close> where the exception \<open>e\<close> leaves the function, and otherwise the
  returned value (\<open>None\<close> for Python's \<^verbatim>\<open>None\<close>) with the diagnostics logged.
\<close>

definition calculate_md5 :: "env \<Rightarrow> libs \<Rightarrow> string \<Rightarrow> string \<Rightarrow> exc + (string option \<times> diag list)" where
  "calculate_md5 E L file_path bytes =
     (case faults E (Hash_read file_path) of
        None \<Rightarrow> Inr (Some (md5_hexdigest L (foldl (@) [] (read_chunks 4096 bytes))), [])
      | Some FileNotFoundError \<Rightarrow> Inr (None, [(Warning, Hash_file_not_found file_path)])
      | Some e \<Rightarrow> Inl e)"

section \<open>Tags and front-matter defaults\<close>

text \<open>Python's insertion-ordered \<^verbatim>\<open>dict\<close>: lookup, item assignment, \<^verbatim>\<open>del\<close>.\<close>

type_synonym dict = "(yaml \<times> yaml) list"

definition dict_get :: "dict \<Rightarrow> string \<Rightarrow> yaml option" where
  "dict_get d k = map_of d (YStr k)"

fun dict_set :: "dict \<Rightarrow> string \<Rightarrow> yaml \<Rightarrow> dict" where
  "dict_set [] k v = [(YStr k, v)]"
| "dict_set ((k', v') # d) k v =
     (if k' = YStr k then (k', v) # d else (k', v') # dict_set d k v)"

definition dict_del :: "dict \<Rightarrow> string \<Rightarrow> dict" where
  "dict_del d k = filter (\<lambda>(k', v'). k' \<noteq> YStr k) d"

text \<open>Lines 128--132: \<^verbatim>\<open>tags_list\<close>, as the Python object it is.\<close>

definition tags_from_note :: "dict \<Rightarrow> yaml" where
  "tags_from_note properties =
     (case dict_get properties ''tags'' of None \<Rightarrow> YList [] | Some v \<Rightarrow> v)"

definition tags_list_of :: "yaml \<Rightarrow> yaml" where
  "tags_list_of tags =
     (case tags of
        YStr s \<Rightarrow> YList (map (\<lambda>tag. YStr (strip tag)) (split_comma s))
      | _ \<Rightarrow> py_or tags (YList []))"

text \<open>
  \<^verbatim>\<open>filter_tag in tags_list\<close>, for the string \<^verbatim>\<open>filter_tag\<close>: membership in a list, key
  membership in a mapping, substring test on a string, \<^verbatim>\<open>TypeError\<close> on anything else.
\<close>

fun str_in :: "string \<Rightarrow> yaml \<Rightarrow> exc + bool" where
  "str_in t (YList xs) = Inr (YStr t \<in> set xs)"
| "str_in t (YMap kvs) = Inr (YStr t \<in> set (map fst kvs))"
| "str_in t (YStr s) = Inr (sublist t s)"
| "str_in t _ = Inl TypeError"

text \<open>The elements a \<^verbatim>\<open>for\<close> clause iterates over (only reached for a list or a mapping).\<close>

fun py_iter :: "yaml \<Rightarrow> yaml list" where
  "py_iter (YList xs) = xs"
| "py_iter (YMap kvs) = map fst kvs"
| "py_iter (YStr s) = map (\<lambda>c. YStr [c]) s"
| "py_iter _ = []"

text \<open>Lines 142--150.\<close>

definition update_tags :: "config \<Rightarrow> yaml \<Rightarrow> dict \<Rightarrow> dict \<times> diag list" where
  "update_tags C tags_list properties =
     (if remove_filter_tag C then
        (let updated_tags = filter (\<lambda>t. t \<noteq> YStr (filter_tag C)) (py_iter tags_list)
         in (if updated_tags \<noteq> [] then dict_set properties ''tags'' (YList updated_tags)
             else if dict_get properties ''tags'' \<noteq> None then dict_del properties ''tags''
             else properties,
             [(Debug, Removing_tag (filter_tag C))]))
      else (dict_set properties ''tags'' tags_list, []))"

text \<open>Lines 154--162.\<close>

definition get_truthy :: "dict \<Rightarrow> string \<Rightarrow> bool" where
  "get_truthy d k = (case dict_get d k of None \<Rightarrow> False | Some v \<Rightarrow> truthy v)"

definition default_title :: "vault_note \<Rightarrow> dict \<Rightarrow> dict \<times> diag list" where
  "default_title n properties =
     (if \<not> get_truthy properties ''title''
      then (dict_set properties ''title'' (YStr (stem n)), [(Debug, Title_set (stem n))])
      else (properties, []))"

definition default_date :: "vault_note \<Rightarrow> dict \<Rightarrow> dict \<times> diag list" where
  "default_date n properties =
     (if \<not> get_truthy properties ''date''
      then (dict_set properties ''date'' (YStr (now_str n)), [(Debug, Date_set (now_str n))])
      else (properties, []))"

section \<open>\<^verbatim>\<open>process_notes\<close>\<close>

text \<open>
  Every function below returns the exception that left it, if any, together with the
  world as it was when the exception was raised or the function returned.
\<close>

text \<open>
  Lines 173--195, the loop over the embed tokens of the body: \<open>bundle\<close> is the bundle
  directory, the list holds \<^verbatim>\<open>match.group(1)\<close> of each match.
\<close>

fun resolve_embeds ::
  "env \<Rightarrow> libs \<Rightarrow> string \<Rightarrow> string list \<Rightarrow> (string \<times> string) list \<Rightarrow> world
   \<Rightarrow> exc option \<times> (string \<times> string) list \<times> world" where
  "resolve_embeds E L bundle [] replacements w = (None, replacements, w)"
| "resolve_embeds E L bundle (original_filename # names) replacements w =
     (case attachments E original_filename of
        None \<Rightarrow>
          resolve_embeds E L bundle names replacements
            (logging [(Warning, Attachment_missing original_filename)] w)
      | Some bytes \<Rightarrow>
          (case calculate_md5 E L original_filename bytes of
             Inl e \<Rightarrow> (Some e, replacements, w)
           | Inr (md5_hash, ds) \<Rightarrow>
               (case md5_hash of
                  None \<Rightarrow> resolve_embeds E L bundle names replacements (logging ds w)
                | Some h \<Rightarrow>
                    if h = [] then resolve_embeds E L bundle names replacements (logging ds w)
                    else
                      (let new_filename = h @ path_suffix L original_filename;
                           w1 = logging (ds @ [(Debug, Copying original_filename new_filename)]) w
                       in case faults E (Copy2 original_filename bundle new_filename) of
                            Some e \<Rightarrow> (Some e, replacements, w1)
                          | None \<Rightarrow>
                              resolve_embeds E L bundle names
                                (replacements @
                                   [(embed_token original_filename, image_link new_filename)])
                                (w1\<lparr>files := (files w1)((bundle, new_filename) \<mapsto> bytes)\<rparr>)))))"

text \<open>Lines 197--200.\<close>

definition rewrite_embeds :: "(string \<times> string) list \<Rightarrow> string \<Rightarrow> string \<times> diag list" where
  "rewrite_embeds replacements content =
     (if replacements \<noteq> []
      then (foldl (\<lambda>content (old, new). str_replace old new content) content replacements,
            [(Info, Updating_links)])
      else (content, []))"

text \<open>Lines 213--217: the text written to \<^verbatim>\<open>index.md\<close>.\<close>

definition index_text :: "libs \<Rightarrow> dict \<Rightarrow> string \<Rightarrow> string" where
  "index_text L properties content =
     ''---\<newline>'' @ yaml_dump L (YMap properties) @ ''---\<newline>\<newline>'' @ content"

text \<open>Lines 165--219: the bundle of a selected note.\<close>

definition write_bundle :: "env \<Rightarrow> libs \<Rightarrow> vault_note \<Rightarrow> dict \<Rightarrow> string \<Rightarrow> world \<Rightarrow> exc option \<times> world" where
  "write_bundle E L n properties content w =
     (let bundle = stem n in
      case faults E (Mkdir_bundle bundle) of
        Some e \<Rightarrow> (Some e, w)
      | None \<Rightarrow>
          (let w1 = logging [(Info, Bundle_dir bundle)] (w\<lparr>dirs := insert bundle (dirs w)\<rparr>)
           in case resolve_embeds E L bundle (find_embeds content) [] w1 of
                (Some e, replacements, w2) \<Rightarrow> (Some e, w2)
              | (None, replacements, w2) \<Rightarrow>
                  (case rewrite_embeds replacements content of
                     (content1, ds1) \<Rightarrow>
                       (case strip_wikilinks content1 of
                          (content2, ds2) \<Rightarrow>
                            (let w3 = logging (ds1 @ ds2) w2
                             in case faults E (Write_index bundle) of
                                  Some e \<Rightarrow> (Some e, w3)
                                | None \<Rightarrow>
                                    (None,
                                     logging [(Info, Note_saved bundle)]
                                       (w3\<lparr>files := (files w3)((bundle, ''index.md'') \<mapsto>
                                               index_text L properties content2)\<rparr>)))))))"

text \<open>Lines 141--162: the properties of a selected note.\<close>

definition final_properties :: "config \<Rightarrow> vault_note \<Rightarrow> yaml \<Rightarrow> dict \<Rightarrow> dict \<times> diag list" where
  "final_properties C n tags_list properties =
     (case update_tags C tags_list properties of
        (p1, d1) \<Rightarrow>
          (case default_title n p1 of
             (p2, d2) \<Rightarrow>
               (case default_date n p2 of
                  (p3, d3) \<Rightarrow> (p3, d1 @ d2 @ d3))))"

text \<open>Lines 116--219: the body of the loop over the notes, for one note.\<close>

definition process_note :: "env \<Rightarrow> libs \<Rightarrow> config \<Rightarrow> vault_note \<Rightarrow> world \<Rightarrow> exc option \<times> world" where
  "process_note E L C n w =
     (let note_path = dir_parts n @ [name n] in
      if list_ex (\<lambda>p. prefix p note_path) (exclude_dirs C)
      then (None, logging [(Debug, Skip_excluded note_path)] w)
      else
        (let w1 = logging [(Info, Checking_note note_path)] w
         in case faults E (Read_note note_path) of
              Some e \<Rightarrow> (Some e, w1)
            | None \<Rightarrow>
                (case parse_note_content L (raw_text n) of
                   (properties, content, ds) \<Rightarrow>
                     (let w2 = logging ds w1
                      in case properties of
                           YMap props \<Rightarrow>
                             (let tags_list = tags_list_of (tags_from_note props)
                              in case str_in (filter_tag C) tags_list of
                                   Inl e \<Rightarrow> (Some e, w2)
                                 | Inr selected \<Rightarrow>
                                     if \<not> selected
                                     then (None,
                                           logging [(Debug, Skip_no_tag (name n) (filter_tag C))] w2)
                                     else
                                       (case final_properties C n tags_list props of
                                          (props', ds') \<Rightarrow>
                                            write_bundle E L n props' content
                                              (logging
                                                 ((Info, Processing_note (name n) (filter_tag C)) # ds')
                                                 w2)))
                         | _ \<Rightarrow> (Some AttributeError, w2)))))"

text \<open>Line 115: the loop; an exception raised in its body leaves it.\<close>

fun notes_loop :: "env \<Rightarrow> libs \<Rightarrow> config \<Rightarrow> vault_note list \<Rightarrow> world \<Rightarrow> exc option \<times> world" where
  "notes_loop E L C [] w = (None, w)"
| "notes_loop E L C (n # ns) w =
     (case process_note E L C n w of
        (Some e, w') \<Rightarrow> (Some e, w')
      | (None, w') \<Rightarrow> notes_loop E L C ns w')"

definition process_notes :: "env \<Rightarrow> libs \<Rightarrow> config \<Rightarrow> vault_note list \<Rightarrow> world \<Rightarrow> exc option \<times> world" where
  "process_notes E L C notes w =
     (case faults E Mkdir_posts of
        Some e \<Rightarrow> (Some e, w)
      | None \<Rightarrow>
          (let w1 = logging ((Info, Scanning) #
                             (if exclude_dirs C \<noteq> [] then [(Info, Excluding_dirs)] else [])) w
           in case notes_loop E L C notes w1 of
                (Some e, w2) \<Rightarrow> (Some e, w2)
              | (None, w2) \<Rightarrow> (None, logging [(Info, Finished)] w2)))"

section \<open>Sample library results and inputs\<close>

text \<open>
  The examples below run the model on concrete notes. \<open>sample_libs\<close> tabulates what the
  libraries return on the texts and bytes of these examples: PyYAML's results, the MD5
  digest of the bytes \<^verbatim>\<open>PNG\<close>, and \<^verbatim>\<open>pathlib\<close>'s suffix of a plain file name. Outside
  the table the loader reports an error, the dumper returns the empty mapping and the
  digest is that of the empty byte string.
\<close>

definition sample_date :: string where
  "sample_date = ''2024-01-01T00:00:00+03:00''"

definition sample_properties :: dict where
  "sample_properties =
     [(YStr ''tags'', YList [YStr ''blog'']), (YStr ''title'', YStr ''Foo''),
      (YStr ''date'', YStr sample_date)]"

definition sample_header :: string where
  "sample_header =
     ''tags:\<newline>- blog\<newline>title: Foo\<newline>date: '' @ [CHR 0x27] @ sample_date @ [CHR 0x27] @ ''\<newline>''"

definition sample_yaml_load :: "string \<Rightarrow> yaml option" where
  "sample_yaml_load y =
     (if y = ''\<newline>tags: blog\<newline>'' then Some (YMap [(YStr ''tags'', YStr ''blog'')])
      else if y = ''\<newline>tags: [blog, draft]\<newline>''
        then Some (YMap [(YStr ''tags'', YList [YStr ''blog'', YStr ''draft''])])
      else if y = ''\<newline>'' @ sample_header then Some (YMap sample_properties)
      else if y = ''\<newline>[]\<newline>'' then Some (YList [])
      else if y = ''\<newline>hello\<newline>'' then Some (YStr ''hello'')
      else None)"

definition sample_yaml_dump :: "yaml \<Rightarrow> string" where
  "sample_yaml_dump v = (if v = YMap sample_properties then sample_header else ''{}\<newline>'')"

definition sample_md5 :: "string \<Rightarrow> string" where
  "sample_md5 bytes =
     (if bytes = ''PNG'' then ''55505ba281b015ec31f03ccb151b2a34''
      else ''d41d8cd98f00b204e9800998ecf8427e'')"

definition sample_suffix :: "string \<Rightarrow> string" where
  "sample_suffix file_name =
     (let i1 = length (dropWhile (\<lambda>c. c \<noteq> CHR ''.'') (rev file_name))
      in if 1 < i1 \<and> i1 < length file_name then drop (i1 - 1) file_name else [])"

definition sample_libs :: libs where
  "sample_libs =
     \<lparr>yaml_safe_load = sample_yaml_load, yaml_dump = sample_yaml_dump,
      md5_hexdigest = sample_md5, path_suffix = sample_suffix\<rparr>"

definition sample_env :: env where
  "sample_env =
     \<lparr>attachments = (\<lambda>file_name. if file_name \<in> {''diagram.png'', ''a.png'', ''b.jpg''}
                                 then Some ''PNG'' else None),
      faults = (\<lambda>_. None)\<rparr>"

definition sample_config :: config where
  "sample_config = \<lparr>filter_tag = ''blog'', remove_filter_tag = False, exclude_dirs = []\<rparr>"

definition empty_world :: world where
  "empty_world = \<lparr>dirs = {}, files = (\<lambda>_. None), log = []\<rparr>"

definition sample_note :: "string \<Rightarrow> vault_note" where
  "sample_note full_content =
     \<lparr>dir_parts = [], name = ''Foo.md'', stem = ''Foo'', raw_text = full_content,
      now_str = sample_date\<rparr>"

definition failing_env :: "fs_op \<Rightarrow> exc \<Rightarrow> env" where
  "failing_env op e = sample_env\<lparr>faults := (\<lambda>op'. if op' = op then Some e else None)\<rparr>"

definition other_note :: vault_note where
  "other_note =
     \<lparr>dir_parts = [], name = ''A.md'', stem = ''A'',
      raw_text = ''---\<newline>tags: blog\<newline>---\<newline>first'', now_str = sample_date\<rparr>"

text \<open>
  The comma-separated string form of a sequence of tags, as a note's front matter writes
  it: the tags joined by a comma and the padding \<open>pad\<close> (used to state that both forms
  of a tag list normalise alike).
\<close>

fun comma_separated :: "string \<Rightarrow> string list \<Rightarrow> string" where
  "comma_separated pad [] = []"
| "comma_separated pad [t] = t"
| "comma_separated pad (t # ts) = t @ '','' @ pad @ comma_separated pad ts"

section \<open>Properties\<close>

subsection \<open>Front matter\<close>

lemma front_matter_match_plain: "front_matter_match ''no front matter'' = None"
  by (simp add: front_matter_match_def)

lemma front_matter_match_bad_yaml:
  "front_matter_match ''---\<newline>tags: [blog\<newline>---\<newline>body''
   = Some (''\<newline>tags: [blog\<newline>'', ''body'')"
  by (simp add: front_matter_match_def at_eol_def isspace_def)

text \<open>
  C5. When the text has no front-matter block, \<open>parse_note_content\<close> returns the empty
  mapping and the text itself as the body; when the captured region makes the YAML
  loader raise, it returns the empty mapping and the whole original text as the body
  (and logs a warning).
\<close>

theorem parse_note_content_fallback:
  "(front_matter_match full = None \<longrightarrow> parse_note_content L full = (YMap [], full, []))
   \<and> (\<forall>y r. front_matter_match full = Some (y, r) \<longrightarrow> yaml_safe_load L y = None
          \<longrightarrow> parse_note_content L full = (YMap [], full, [(Warning, Yaml_error)]))"
  by (simp add: parse_note_content_def)

theorem parse_note_content_fallback_witness:
  "front_matter_match ''no front matter'' = None
   \<and> parse_note_content sample_libs ''no front matter'' = (YMap [], ''no front matter'', [])
   \<and> front_matter_match ''---\<newline>tags: [blog\<newline>---\<newline>body''
       = Some (''\<newline>tags: [blog\<newline>'', ''body'')
   \<and> yaml_safe_load sample_libs ''\<newline>tags: [blog\<newline>'' = None
   \<and> parse_note_content sample_libs ''---\<newline>tags: [blog\<newline>---\<newline>body''
       = (YMap [], ''---\<newline>tags: [blog\<newline>---\<newline>body'', [(Warning, Yaml_error)])"
  using parse_note_content_fallback [of "''no front matter''" sample_libs]
        parse_note_content_fallback [of "''---\<newline>tags: [blog\<newline>---\<newline>body''" sample_libs]
  by (simp add: front_matter_match_plain front_matter_match_bad_yaml sample_libs_def
        sample_yaml_load_def sample_header_def)

lemma fm_close_shape:
  "fm_close prev s = Some (g, r) \<Longrightarrow>
     \<exists>ws. s = g @ ''---'' @ ws @ r \<and> list_all isspace ws \<and> (r = [] \<or> \<not> isspace (hd r))
          \<and> last (prev # g) = CHR ''\<newline>''"
proof (induction s arbitrary: prev g)
  case Nil
  then show ?case by simp
next
  case (Cons c cs)
  show ?case
  proof (cases "prev = CHR ''\<newline>'' \<and> prefix ''---'' (c # cs)")
    case True
    with Cons.prems have g: "g = []" and r: "r = dropWhile isspace (drop 3 (c # cs))" by auto
    from True obtain t where t: "c # cs = ''---'' @ t" by (auto simp: prefix_def)
    have "t = takeWhile isspace t @ dropWhile isspace t" by simp
    moreover have "list_all isspace (takeWhile isspace t)"
      by (simp add: list_all_iff) (meson set_takeWhileD)
    moreover have "dropWhile isspace t = [] \<or> \<not> isspace (hd (dropWhile isspace t))"
      by (metis hd_dropWhile)
    ultimately show ?thesis using g r t True
      by (intro exI [of _ "takeWhile isspace t"]) auto
  next
    case False
    with Cons.prems obtain g' where g': "g = c # g'" and rec: "fm_close c cs = Some (g', r)"
      by (auto split: if_splits)
    from Cons.IH [OF rec] obtain ws where
      "cs = g' @ ''---'' @ ws @ r" "list_all isspace ws" "r = [] \<or> \<not> isspace (hd r)"
      "last (c # g') = CHR ''\<newline>''" by blast
    then show ?thesis using g' by (intro exI [of _ ws]) auto
  qed
qed

lemma fm_close_first:
  "fm_close prev s = Some (g, r) \<Longrightarrow> \<not> sublist ''\<newline>---'' (prev # g)"
proof (induction s arbitrary: prev g)
  case Nil
  then show ?case by simp
next
  case (Cons c cs)
  show ?case
  proof (cases "prev = CHR ''\<newline>'' \<and> prefix ''---'' (c # cs)")
    case True
    with Cons.prems have "g = []" by auto
    then show ?thesis by (simp add: sublist_Cons_right)
  next
    case False
    with Cons.prems obtain g' where g': "g = c # g'" and rec: "fm_close c cs = Some (g', r)"
      by (auto split: if_splits)
    from fm_close_shape [OF rec] have "prefix g' cs" by (auto simp: prefix_def)
    then have pre: "prefix (c # g') (c # cs)" by simp
    have "\<not> prefix ''\<newline>---'' (prev # c # g')"
    proof
      assume "prefix ''\<newline>---'' (prev # c # g')"
      then have nl: "prev = CHR ''\<newline>''" and "prefix ''---'' (c # g')" by auto
      with pre have p3: "prefix ''---'' (c # cs)" using prefix_order.trans by blast
      from False nl p3 show False by blast
    qed
    with Cons.IH [OF rec] show ?thesis using g' by (simp add: sublist_Cons_right)
  qed
qed

lemma fm_open_shape:
  "fm_open prev s = Some (g, r) \<Longrightarrow>
     \<exists>ws t. s = ws @ t \<and> list_all isspace ws \<and> at_eol t \<and> fm_close (last (prev # ws)) t = Some (g, r)"
proof (induction s arbitrary: prev)
  case Nil
  then show ?case by (simp add: at_eol_def)
next
  case (Cons c cs)
  show ?case
  proof (cases "isspace c \<and> fm_open c cs \<noteq> None")
    case True
    with Cons.prems have rec: "fm_open c cs = Some (g, r)" by (auto split: option.splits)
    from Cons.IH [OF rec] obtain ws t where
      "cs = ws @ t" "list_all isspace ws" "at_eol t" "fm_close (last (c # ws)) t = Some (g, r)"
      by blast
    with True show ?thesis by (intro exI [of _ "c # ws"] exI [of _ t]) auto
  next
    case False
    with Cons.prems have "at_eol (c # cs)" and "fm_close prev (c # cs) = Some (g, r)"
      by (auto split: option.splits if_splits)
    then show ?thesis by (intro exI [of _ "[]"] exI [of _ "c # cs"]) auto
  qed
qed

text \<open>
  C9, as the code has it. A front-matter block is recognised only when the text starts
  with \<^verbatim>\<open>---\<close> followed by nothing but whitespace up to a newline; the captured region
  starts at that newline and runs to the first later line that begins with \<^verbatim>\<open>---\<close>
  (no line inside the region begins with it). Nothing is required of what follows the
  closing \<^verbatim>\<open>---\<close>: whitespace after it is consumed and the rest is the body.
\<close>

theorem front_matter_match_shape:
  assumes "front_matter_match full = Some (region, rest)"
  shows "\<exists>ws ws'. full = ''---'' @ ws @ region @ ''---'' @ ws' @ rest
           \<and> list_all isspace ws \<and> list_all isspace ws'
           \<and> region \<noteq> [] \<and> hd region = CHR ''\<newline>'' \<and> last region = CHR ''\<newline>''
           \<and> \<not> sublist ''\<newline>---'' region
           \<and> (rest = [] \<or> \<not> isspace (hd rest))"
proof -
  from assms obtain s where full: "full = ''---'' @ s" and op: "fm_open CHR ''-'' s = Some (region, rest)"
    by (auto simp: front_matter_match_def prefix_def split: if_splits)
  from fm_open_shape [OF op] obtain ws t where
    s: "s = ws @ t" and ws: "list_all isspace ws" and eol: "at_eol t"
    and cl: "fm_close (last (CHR ''-'' # ws)) t = Some (region, rest)" by blast
  from cl have "t \<noteq> []" by (auto split: if_splits)
  with eol obtain t' where t: "t = CHR ''\<newline>'' # t'" by (cases t) (auto simp: at_eol_def)
  from cl t obtain g' where region: "region = CHR ''\<newline>'' # g'"
    by (auto split: if_splits)
  from fm_close_shape [OF cl] obtain ws' where
    sh: "t = region @ ''---'' @ ws' @ rest" "list_all isspace ws'" "rest = [] \<or> \<not> isspace (hd rest)"
    "last (last (CHR ''-'' # ws) # region) = CHR ''\<newline>''" by blast
  from fm_close_first [OF cl] have "\<not> sublist ''\<newline>---'' region"
    by (simp add: sublist_Cons_right)
  with sh ws region full s show ?thesis
    by (intro exI [of _ ws] exI [of _ ws']) auto
qed

theorem front_matter_match_shape_witness:
  "front_matter_match ''--- \<newline>a: 1\<newline>---\<newline>\<newline>body'' = Some (''\<newline>a: 1\<newline>'', ''body'')
   \<and> (\<exists>ws ws'. ''--- \<newline>a: 1\<newline>---\<newline>\<newline>body'' = ''---'' @ ws @ ''\<newline>a: 1\<newline>'' @ ''---'' @ ws' @ ''body''
          \<and> list_all isspace ws \<and> list_all isspace ws'
          \<and> \<not> sublist ''\<newline>---'' ''\<newline>a: 1\<newline>'')"
proof -
  have m: "front_matter_match ''--- \<newline>a: 1\<newline>---\<newline>\<newline>body'' = Some (''\<newline>a: 1\<newline>'', ''body'')"
    by (simp add: front_matter_match_def at_eol_def isspace_def)
  from front_matter_match_shape [OF m] m show ?thesis by blast
qed

text \<open>
  The closing line of this text is \<^verbatim>\<open>---abc\<close>; the block is recognised all the same, and
  \<^verbatim>\<open>abc\<close> starts the body.
\<close>

theorem front_matter_closing_line_counterexample:
  "front_matter_match ''---\<newline>a: 1\<newline>---abc\<newline>body'' = Some (''\<newline>a: 1\<newline>'', ''abc\<newline>body'')"
  by (simp add: front_matter_match_def at_eol_def isspace_def)

subsection \<open>Properties that are not a mapping\<close>

lemma parse_truthy:
  assumes "front_matter_match full = Some (y, r)" and "yaml_safe_load L y = Some v" and "truthy v"
  shows "parse_note_content L full = (v, lstrip r, [])"
  using assms by (simp add: parse_note_content_def py_or_def)

text \<open>
  C10, as the code has it. When the front-matter region loads as a truthy value that is
  not a mapping (a non-empty string or list, a non-zero number, \<^verbatim>\<open>True\<close>),
  \<open>parse_note_content\<close> returns that value as the properties, and for a note that is not
  excluded and can be read the \<^verbatim>\<open>properties.get\<close> of line 128 raises \<^verbatim>\<open>AttributeError\<close>
  before anything is written. (A falsy value is replaced by the empty mapping, line 97.)
\<close>

theorem non_mapping_front_matter_raises:
  assumes "front_matter_match (raw_text n) = Some (y, r)"
    and "yaml_safe_load L y = Some v"
    and "truthy v"
    and "\<forall>kvs. v \<noteq> YMap kvs"
    and "\<not> list_ex (\<lambda>p. prefix p (dir_parts n @ [name n])) (exclude_dirs C)"
    and "faults E (Read_note (dir_parts n @ [name n])) = None"
  shows "fst (parse_note_content L (raw_text n)) = v
         \<and> fst (process_note E L C n w) = Some AttributeError
         \<and> files (snd (process_note E L C n w)) = files w
         \<and> dirs (snd (process_note E L C n w)) = dirs w"
proof -
  have p: "parse_note_content L (raw_text n) = (v, lstrip r, [])"
    using assms(1-3) by (rule parse_truthy)
  from assms(4) have "process_note E L C n w
      = (Some AttributeError, logging [] (logging [(Info, Checking_note (dir_parts n @ [name n]))] w))"
    using assms(5,6) p by (cases v) (simp_all add: process_note_def Let_def)
  with p show ?thesis by (simp add: logging_def)
qed

theorem non_mapping_front_matter_raises_witness:
  "fst (parse_note_content sample_libs ''---\<newline>hello\<newline>---\<newline>body'') = YStr ''hello''
   \<and> fst (process_note sample_env sample_libs sample_config
             (sample_note ''---\<newline>hello\<newline>---\<newline>body'') empty_world) = Some AttributeError"
proof -
  have m: "front_matter_match (raw_text (sample_note ''---\<newline>hello\<newline>---\<newline>body''))
           = Some (''\<newline>hello\<newline>'', ''body'')"
    by (simp add: sample_note_def front_matter_match_def at_eol_def isspace_def)
  have l: "yaml_safe_load sample_libs ''\<newline>hello\<newline>'' = Some (YStr ''hello'')"
    by (simp add: sample_libs_def sample_yaml_load_def sample_header_def)
  have r: "raw_text (sample_note ''---\<newline>hello\<newline>---\<newline>body'') = ''---\<newline>hello\<newline>---\<newline>body''"
    by (simp add: sample_note_def)
  from non_mapping_front_matter_raises [OF m l, of sample_config sample_env empty_world] r
  show ?thesis by (simp add: sample_config_def sample_env_def)
qed

text \<open>
  The region \<^verbatim>\<open>[]\<close> is valid YAML and loads as the empty list, which is not a mapping;
  the properties are the empty mapping and the note is skipped without an exception.
\<close>

theorem falsy_non_mapping_front_matter_counterexample:
  "front_matter_match ''---\<newline>[]\<newline>---\<newline>body'' = Some (''\<newline>[]\<newline>'', ''body'')
   \<and> yaml_safe_load sample_libs ''\<newline>[]\<newline>'' = Some (YList [])
   \<and> fst (parse_note_content sample_libs ''---\<newline>[]\<newline>---\<newline>body'') = YMap []
   \<and> fst (process_note sample_env sample_libs sample_config
             (sample_note ''---\<newline>[]\<newline>---\<newline>body'') empty_world) = None"
  by (simp add: front_matter_match_def at_eol_def isspace_def sample_libs_def sample_yaml_load_def
        sample_header_def parse_note_content_def py_or_def process_note_def sample_note_def
        sample_config_def sample_env_def tags_from_note_def dict_get_def tags_list_of_def Let_def)

subsection \<open>Evaluating the model on concrete inputs\<close>

lemmas run_defs =
  process_notes_def process_note_def parse_note_content_def front_matter_match_def at_eol_def
  isspace_def lstrip_def rstrip_def strip_def py_or_def tags_from_note_def tags_list_of_def
  dict_get_def dict_del_def final_properties_def update_tags_def default_title_def
  default_date_def get_truthy_def write_bundle_def logging_def calculate_md5_def
  read_chunks_concat rewrite_embeds_def strip_wikilinks_def wikilink_at_def wikilink_lookbehind_def
  embed_token_def image_link_def str_replace_def index_text_def Let_def

lemmas sample_defs =
  sample_libs_def sample_yaml_load_def sample_yaml_dump_def sample_md5_def sample_suffix_def
  sample_header_def sample_properties_def sample_date_def sample_env_def sample_config_def
  empty_world_def sample_note_def failing_env_def other_note_def

subsection \<open>Wiki-links and embeds\<close>

text \<open>
  C1. The claim: stripping \<^verbatim>\<open>[[x]]\<close> never changes an embed token \<^verbatim>\<open>![[x]]\<close>, so an embed
  whose attachment is missing stays in the emitted body as it was. The code: the
  look-behind of \<open>wikilink_pattern\<close> excludes a backslash followed by an exclamation mark,
  not an exclamation mark, so the brackets of an unresolved embed are stripped. Here the
  note's body is \<^verbatim>\<open>See ![[missing.png]]\<close>, no such attachment exists, and the body written
  to \<^verbatim>\<open>index.md\<close> is \<^verbatim>\<open>See !missing.png\<close>.
\<close>

theorem unresolved_embed_is_stripped:
  "strip_wikilinks ''See ![[missing.png]]'' = (''See !missing.png'', [(Info, Updating_wikilinks)])
   \<and> attachments sample_env ''missing.png'' = None
   \<and> (case process_note sample_env sample_libs sample_config
               (sample_note ''---\<newline>tags: blog\<newline>---\<newline>See ![[missing.png]]'') empty_world of
         (e, w) \<Rightarrow> e = None \<and> files w (''Foo'', ''index.md'')
                    = Some (''---\<newline>'' @ sample_header @ ''---\<newline>\<newline>See !missing.png''))"
  by (simp add: run_defs sample_defs)

subsection \<open>The loop over the notes\<close>

lemma notes_loop_append:
  "notes_loop E L C pre w = (None, w1) \<Longrightarrow>
   notes_loop E L C (pre @ ns) w = notes_loop E L C ns w1"
proof (induction pre arbitrary: w)
  case Nil
  then show ?case by simp
next
  case (Cons n pre)
  obtain r w' where step: "process_note E L C n w = (r, w')" by (cases "process_note E L C n w")
  with Cons.prems have "r = None" and "notes_loop E L C pre w' = (None, w1)"
    by (auto split: option.splits)
  with Cons.IH [of w'] step show ?case by simp
qed

text \<open>
  C2, as the code has it. The loop body has no exception handler: when the notes before
  \<open>n\<close> were processed without an exception and processing \<open>n\<close> raises \<open>e\<close> (an
  unreadable note file, a copy error, a write error, or any other exception),
  \<open>process_notes\<close> ends with \<open>e\<close> in the world reached at that point, whatever notes
  follow: they are not processed.
\<close>

theorem process_notes_stops_at_exception:
  assumes "faults E Mkdir_posts = None"
    and "notes_loop E L C pre
           (logging ((Info, Scanning) #
              (if exclude_dirs C \<noteq> [] then [(Info, Excluding_dirs)] else [])) w) = (None, w1)"
    and "process_note E L C n w1 = (Some e, w2)"
  shows "process_notes E L C (pre @ n # post) w = (Some e, w2)"
proof -
  have "notes_loop E L C (n # post) w1 = (Some e, w2)"
    using assms(3) by simp
  with notes_loop_append [OF assms(2), of "n # post"] assms(1)
  show ?thesis by (simp add: process_notes_def Let_def)
qed

lemma other_note_unreadable:
  "process_note (failing_env (Read_note [''A.md'']) PermissionError) sample_libs sample_config
     other_note (logging [(Info, Scanning)] empty_world)
   = (Some PermissionError,
      \<lparr>dirs = {}, files = (\<lambda>_. None), log = [(Info, Scanning), (Info, Checking_note [''A.md''])]\<rparr>)"
  by (simp add: run_defs sample_defs)

theorem process_notes_stops_at_exception_witness:
  "process_notes (failing_env (Read_note [''A.md'']) PermissionError) sample_libs sample_config
     ([] @ other_note # [sample_note ''---\<newline>tags: blog\<newline>---\<newline>body''])
     empty_world
   = (Some PermissionError,
      \<lparr>dirs = {}, files = (\<lambda>_. None), log = [(Info, Scanning), (Info, Checking_note [''A.md''])]\<rparr>)"
proof -
  have a: "faults (failing_env (Read_note [''A.md'']) PermissionError) Mkdir_posts = None"
    by (simp add: failing_env_def)
  have b: "notes_loop (failing_env (Read_note [''A.md'']) PermissionError) sample_libs sample_config []
             (logging ((Info, Scanning) #
                (if exclude_dirs sample_config \<noteq> [] then [(Info, Excluding_dirs)] else [])) empty_world)
           = (None, logging [(Info, Scanning)] empty_world)"
    by (simp add: sample_config_def)
  from process_notes_stops_at_exception [OF a b other_note_unreadable]
  show ?thesis .
qed

text \<open>
  Two notes carry the tag; the first cannot be read. The run ends with the exception and
  the second note has no bundle, although the same run on the second note alone writes it.
\<close>

theorem unreadable_note_aborts_run_counterexample:
  "(case process_notes (failing_env (Read_note [''A.md'']) PermissionError) sample_libs sample_config
           [other_note, sample_note ''---\<newline>tags: blog\<newline>---\<newline>body''] empty_world of
      (e, w) \<Rightarrow> e = Some PermissionError \<and> files w (''Foo'', ''index.md'') = None \<and> dirs w = {})
   \<and> (case process_notes (failing_env (Read_note [''A.md'']) PermissionError) sample_libs sample_config
           [sample_note ''---\<newline>tags: blog\<newline>---\<newline>body''] empty_world of
      (e, w) \<Rightarrow> e = None \<and> files w (''Foo'', ''index.md'') \<noteq> None \<and> dirs w = {''Foo''})"
  by (simp add: run_defs sample_defs)

subsection \<open>Attachments\<close>

text \<open>
  C3, as the code has it. For an embed token whose attachment exists, a failure to read
  the file while hashing is handled only when it is \<^verbatim>\<open>FileNotFoundError\<close>: a warning is
  logged, no replacement is recorded for the token and the loop goes on with the next
  token. Any other exception raised by the read leaves the loop, with the replacements
  and the world as they were.
\<close>

theorem hash_read_failure:
  assumes "attachments E original_filename = Some bytes"
  shows "(faults E (Hash_read original_filename) = Some FileNotFoundError \<longrightarrow>
            resolve_embeds E L bundle (original_filename # names) replacements w
            = resolve_embeds E L bundle names replacements
                (logging [(Warning, Hash_file_not_found original_filename)] w))
       \<and> (\<forall>e. faults E (Hash_read original_filename) = Some e \<and> e \<noteq> FileNotFoundError \<longrightarrow>
            resolve_embeds E L bundle (original_filename # names) replacements w
            = (Some e, replacements, w))"
  using assms by (auto simp: calculate_md5_def split: exc.splits)

theorem hash_read_failure_witness:
  "attachments (failing_env (Hash_read ''diagram.png'') FileNotFoundError) ''diagram.png'' = Some ''PNG''
   \<and> resolve_embeds (failing_env (Hash_read ''diagram.png'') FileNotFoundError) sample_libs ''Foo''
        [''diagram.png''] [] empty_world
      = (None, [], logging [(Warning, Hash_file_not_found ''diagram.png'')] empty_world)
   \<and> resolve_embeds (failing_env (Hash_read ''diagram.png'') PermissionError) sample_libs ''Foo''
        [''diagram.png''] [] empty_world
      = (Some PermissionError, [], empty_world)"
proof -
  have a: "attachments (failing_env (Hash_read ''diagram.png'') e) ''diagram.png'' = Some ''PNG''" for e
    by (simp add: failing_env_def sample_env_def)
  have f: "faults (failing_env (Hash_read ''diagram.png'') e) (Hash_read ''diagram.png'') = Some e" for e
    by (simp add: failing_env_def)
  from hash_read_failure [OF a, of FileNotFoundError sample_libs "''Foo''" "[]" "[]" empty_world]
       hash_read_failure [OF a, of PermissionError sample_libs "''Foo''" "[]" "[]" empty_world]
       a f
  show ?thesis by simp
qed

text \<open>
  The attachment exists but reading it raises \<^verbatim>\<open>PermissionError\<close>: the run ends with
  that exception, and the note is not written.
\<close>

theorem unreadable_attachment_aborts_run_counterexample:
  "attachments (failing_env (Hash_read ''diagram.png'') PermissionError) ''diagram.png'' = Some ''PNG''
   \<and> (case process_notes (failing_env (Hash_read ''diagram.png'') PermissionError) sample_libs
             sample_config
             [sample_note ''---\<newline>tags: blog\<newline>---\<newline>See ![[diagram.png]]''] empty_world of
        (e, w) \<Rightarrow> e = Some PermissionError \<and> files w (''Foo'', ''index.md'') = None
                  \<and> (Info, Finished) \<notin> set (log w))"
  by (simp add: run_defs sample_defs)

lemma calculate_md5_ok:
  "faults E (Hash_read file_path) = None \<Longrightarrow>
   calculate_md5 E L file_path bytes = Inr (Some (md5_hexdigest L bytes), [])"
  by (simp add: calculate_md5_def read_chunks_concat)

lemma resolve_embeds_step:
  assumes "attachments E original_filename = Some bytes"
    and "faults E (Hash_read original_filename) = None"
    and "md5_hexdigest L bytes \<noteq> []"
    and "faults E (Copy2 original_filename bundle
           (md5_hexdigest L bytes @ path_suffix L original_filename)) = None"
  shows "resolve_embeds E L bundle (original_filename # names) replacements w
         = resolve_embeds E L bundle names
             (replacements @
                [(embed_token original_filename,
                  image_link (md5_hexdigest L bytes @ path_suffix L original_filename))])
             (w\<lparr>log := log w @ [(Debug, Copying original_filename
                                   (md5_hexdigest L bytes @ path_suffix L original_filename))],
                files := (files w)((bundle, md5_hexdigest L bytes @ path_suffix L original_filename)
                                     \<mapsto> bytes)\<rparr>)"
  using assms by (simp add: calculate_md5_ok logging_def Let_def)

text \<open>
  C8, as the code has it. Two embed tokens of one note whose attachment files hold the
  same bytes and have the same extension resolve to the same target file name, the
  hexadecimal digest of the bytes followed by that extension (the separator included),
  and the bundle holds the bytes under that name; the two tokens may name the same
  file, so copying it a second time gives the same name again. The digest is not empty
  and the reads and copies succeed.
\<close>

theorem same_content_same_target:
  assumes "attachments E name1 = Some bytes" and "attachments E name2 = Some bytes"
    and "path_suffix L name1 = path_suffix L name2"
    and "md5_hexdigest L bytes \<noteq> []"
    and "faults E (Hash_read name1) = None" and "faults E (Hash_read name2) = None"
    and "faults E (Copy2 name1 bundle (md5_hexdigest L bytes @ path_suffix L name1)) = None"
    and "faults E (Copy2 name2 bundle (md5_hexdigest L bytes @ path_suffix L name1)) = None"
  shows "\<exists>w'. resolve_embeds E L bundle [name1, name2] [] w
              = (None,
                 [(embed_token name1, image_link (md5_hexdigest L bytes @ path_suffix L name1)),
                  (embed_token name2, image_link (md5_hexdigest L bytes @ path_suffix L name1))],
                 w')
            \<and> files w' (bundle, md5_hexdigest L bytes @ path_suffix L name1) = Some bytes"
proof -
  from assms(3,8) have c2:
    "faults E (Copy2 name2 bundle (md5_hexdigest L bytes @ path_suffix L name2)) = None" by simp
  show ?thesis
    by (simp add: resolve_embeds_step [OF assms(1) assms(5) assms(4) assms(7)]
          resolve_embeds_step [OF assms(2) assms(6) assms(4) c2] assms(3) del: resolve_embeds.simps(2))
qed

theorem same_content_same_target_witness:
  "\<exists>w'. resolve_embeds sample_env sample_libs ''Foo'' [''a.png'', ''diagram.png''] [] empty_world
         = (None,
            [(''![[a.png]]'', ''![](55505ba281b015ec31f03ccb151b2a34.png)''),
             (''![[diagram.png]]'', ''![](55505ba281b015ec31f03ccb151b2a34.png)'')],
            w')
       \<and> files w' (''Foo'', ''55505ba281b015ec31f03ccb151b2a34.png'') = Some ''PNG''"
  using same_content_same_target [of sample_env "''a.png''" "''PNG''" "''diagram.png''" sample_libs
          "''Foo''" empty_world]
  by (simp add: sample_defs embed_token_def image_link_def del: resolve_embeds.simps(2))

text \<open>
  \<^verbatim>\<open>a.png\<close> and \<^verbatim>\<open>b.jpg\<close> hold the same bytes; their target names share the digest and
  differ in the extension.
\<close>

theorem same_content_other_extension_counterexample:
  "attachments sample_env ''a.png'' = attachments sample_env ''b.jpg''
   \<and> fst (snd (resolve_embeds sample_env sample_libs ''Foo'' [''a.png'', ''b.jpg''] [] empty_world))
     = [(''![[a.png]]'', ''![](55505ba281b015ec31f03ccb151b2a34.png)''),
        (''![[b.jpg]]'', ''![](55505ba281b015ec31f03ccb151b2a34.jpg)'')]"
  by (simp add: run_defs sample_defs)

subsection \<open>Tags\<close>

lemma dict_get_set: "dict_get (dict_set d k v) k' = (if k' = k then Some v else dict_get d k')"
  by (induction d) (auto simp: dict_get_def)

lemma dict_get_del: "dict_get (dict_del d k) k' = (if k' = k then None else dict_get d k')"
  by (induction d) (auto simp: dict_get_def dict_del_def)

lemma default_title_tags: "dict_get (fst (default_title n d)) ''tags'' = dict_get d ''tags''"
  by (simp add: default_title_def dict_get_set)

lemma default_date_tags: "dict_get (fst (default_date n d)) ''tags'' = dict_get d ''tags''"
  by (simp add: default_date_def dict_get_set)

lemma final_properties_tags:
  "dict_get (fst (final_properties C n tags_list props)) ''tags''
   = dict_get (fst (update_tags C tags_list props)) ''tags''"
  by (simp add: final_properties_def case_prod_beta default_title_tags default_date_tags)

text \<open>
  C7. For a note whose normalised tags are the sequence \<open>ts\<close>, the \<^verbatim>\<open>tags\<close> entry of the
  properties that are written out is: with the remove option, \<open>ts\<close> without every
  occurrence of the selection tag, and no \<^verbatim>\<open>tags\<close> key at all when nothing is left;
  without the option, the whole sequence \<open>ts\<close>.
\<close>

theorem emitted_tags:
  assumes "tags_list_of (tags_from_note props) = YList ts"
  shows "dict_get (fst (final_properties C n (tags_list_of (tags_from_note props)) props)) ''tags''
         = (if remove_filter_tag C
            then (if filter (\<lambda>t. t \<noteq> YStr (filter_tag C)) ts = [] then None
                  else Some (YList (filter (\<lambda>t. t \<noteq> YStr (filter_tag C)) ts)))
            else Some (YList ts))"
  unfolding final_properties_tags assms
  by (simp add: update_tags_def dict_get_set dict_get_del Let_def)

theorem emitted_tags_witness:
  "tags_list_of (tags_from_note [(YStr ''tags'', YStr ''blog, draft'')])
     = YList [YStr ''blog'', YStr ''draft'']
   \<and> dict_get (fst (final_properties (sample_config\<lparr>remove_filter_tag := True\<rparr>) (sample_note [])
                     (tags_list_of (tags_from_note [(YStr ''tags'', YStr ''blog, draft'')]))
                     [(YStr ''tags'', YStr ''blog, draft'')])) ''tags''
     = Some (YList [YStr ''draft''])
   \<and> dict_get (fst (final_properties (sample_config\<lparr>remove_filter_tag := True\<rparr>) (sample_note [])
                     (tags_list_of (tags_from_note [(YStr ''tags'', YList [YStr ''blog''])]))
                     [(YStr ''tags'', YList [YStr ''blog''])])) ''tags''
     = None
   \<and> dict_get (fst (final_properties sample_config (sample_note [])
                     (tags_list_of (tags_from_note [(YStr ''tags'', YStr ''blog, draft'')]))
                     [(YStr ''tags'', YStr ''blog, draft'')])) ''tags''
     = Some (YList [YStr ''blog'', YStr ''draft''])"
proof -
  have a: "tags_list_of (tags_from_note [(YStr ''tags'', YStr ''blog, draft'')])
           = YList [YStr ''blog'', YStr ''draft'']"
    by (simp add: tags_list_of_def tags_from_note_def dict_get_def strip_def lstrip_def rstrip_def
          isspace_def)
  have b: "tags_list_of (tags_from_note [(YStr ''tags'', YList [YStr ''blog''])]) = YList [YStr ''blog'']"
    by (simp add: tags_list_of_def tags_from_note_def dict_get_def py_or_def)
  from emitted_tags [OF a, of "sample_config\<lparr>remove_filter_tag := True\<rparr>" "sample_note []"]
       emitted_tags [OF b, of "sample_config\<lparr>remove_filter_tag := True\<rparr>" "sample_note []"]
       emitted_tags [OF a, of sample_config "sample_note []"] a
  show ?thesis by (simp add: sample_config_def)
qed

lemma split_comma_nonempty: "split_comma s \<noteq> []"
  by (induction s) auto

lemma split_comma_plain: "CHR '','' \<notin> set a \<Longrightarrow> split_comma a = [a]"
  by (induction a) auto

lemma split_comma_append:
  "CHR '','' \<notin> set a \<Longrightarrow> split_comma (a @ CHR '','' # rest) = a # split_comma rest"
  by (induction a) auto

lemma lstrip_pad: "\<forall>c\<in>set pad. isspace c \<Longrightarrow> lstrip (pad @ t) = lstrip t"
  by (simp add: lstrip_def dropWhile_append2)

lemma strip_pad: "\<forall>c\<in>set pad. isspace c \<Longrightarrow> strip (pad @ t) = strip t"
  by (simp add: strip_def lstrip_pad)

lemma isspace_comma: "\<not> isspace CHR '',''"
  by (simp add: isspace_def)

lemma split_comma_separated:
  assumes "\<forall>t\<in>set ts. CHR '','' \<notin> set t" and "\<forall>c\<in>set pad. isspace c"
  shows "ts \<noteq> [] \<Longrightarrow> CHR '','' \<notin> set p \<Longrightarrow>
         split_comma (p @ comma_separated pad ts) = (p @ hd ts) # map ((@) pad) (tl ts)"
  using assms(1)
proof (induction ts arbitrary: p)
  case Nil
  then show ?case by simp
next
  case (Cons t ts)
  show ?case
  proof (cases ts)
    case Nil
    with Cons.prems show ?thesis by (simp add: split_comma_plain)
  next
    case (Cons u us)
    from assms(2) isspace_comma have pad: "CHR '','' \<notin> set pad" by blast
    from Cons.prems have pt: "CHR '','' \<notin> set (p @ t)" by simp
    have "split_comma (p @ comma_separated pad (t # ts))
          = split_comma ((p @ t) @ CHR '','' # pad @ comma_separated pad ts)"
      using Cons by simp
    also have "\<dots> = (p @ t) # split_comma (pad @ comma_separated pad ts)"
      using pt by (rule split_comma_append)
    also have "split_comma (pad @ comma_separated pad ts) = (pad @ hd ts) # map ((@) pad) (tl ts)"
      using Cons.IH [of pad] Cons Cons.prems pad by simp
    finally show ?thesis using Cons by simp
  qed
qed

lemma normalise_comma_separated:
  assumes "ts \<noteq> []" and "\<forall>t\<in>set ts. CHR '','' \<notin> set t \<and> strip t = t"
    and "\<forall>c\<in>set pad. isspace c"
  shows "map strip (split_comma (comma_separated pad ts)) = ts"
proof -
  from assms(2) have cf: "\<forall>t\<in>set ts. CHR '','' \<notin> set t" by blast
  from split_comma_separated [OF cf assms(3) assms(1), of "[]"]
  have sp: "split_comma (comma_separated pad ts) = hd ts # map ((@) pad) (tl ts)" by simp
  from assms(1) obtain t us where ts: "ts = t # us" by (cases ts) auto
  with assms(2) have "strip t = t" and "\<forall>u\<in>set us. strip u = u" by auto
  then have "map strip (t # map ((@) pad) us) = t # us"
    by (simp add: strip_pad [OF assms(3)] map_idI)
  with sp ts show ?thesis by simp
qed

lemma process_note_selection:
  assumes "\<not> list_ex (\<lambda>p. prefix p (dir_parts n @ [name n])) (exclude_dirs C)"
    and "faults E (Read_note (dir_parts n @ [name n])) = None"
    and "parse_note_content L (raw_text n) = (YMap props, content, ds)"
    and "tags_list_of (tags_from_note props) = YList ts"
  shows "process_note E L C n w
         = (if YStr (filter_tag C) \<in> set ts
            then write_bundle E L n (fst (final_properties C n (YList ts) props)) content
                   (logging ((Info, Processing_note (name n) (filter_tag C)) #
                             snd (final_properties C n (YList ts) props))
                      (logging ds (logging [(Info, Checking_note (dir_parts n @ [name n]))] w)))
            else (None,
                  logging [(Debug, Skip_no_tag (name n) (filter_tag C))]
                    (logging ds (logging [(Info, Checking_note (dir_parts n @ [name n]))] w))))"
  using assms by (simp add: process_note_def Let_def split: prod.splits)

text \<open>
  C6. Normalisation: a string of tags is split at the commas and every fragment is
  stripped; a sequence is taken as it is; without a \<^verbatim>\<open>tags\<close> property the sequence is
  empty. For a note that is not excluded, can be read and whose tags normalise to the
  sequence \<open>ts\<close>: when the selection tag is an element of \<open>ts\<close> (equality of strings, so
  case matters) the note goes on to its bundle; when it is not, the note is skipped
  without an exception, and no file and no bundle directory changes. The
  comma-separated string of a non-empty sequence of tags (each free of commas and of
  surrounding whitespace, joined by a comma and optional whitespace) normalises to the
  same sequence as the sequence itself.
\<close>

theorem tag_selection:
  "tags_list_of (YStr s) = YList (map (\<lambda>tag. YStr (strip tag)) (split_comma s))
   \<and> tags_list_of (YList xs) = YList xs
   \<and> (dict_get props ''tags'' = None \<longrightarrow> tags_list_of (tags_from_note props) = YList [])
   \<and> (\<not> list_ex (\<lambda>p. prefix p (dir_parts n @ [name n])) (exclude_dirs C)
        \<and> faults E (Read_note (dir_parts n @ [name n])) = None
        \<and> parse_note_content L (raw_text n) = (YMap props, content, ds)
        \<and> tags_list_of (tags_from_note props) = YList ts
      \<longrightarrow> (YStr (filter_tag C) \<in> set ts \<longrightarrow>
             process_note E L C n w
             = write_bundle E L n (fst (final_properties C n (YList ts) props)) content
                 (logging ((Info, Processing_note (name n) (filter_tag C)) #
                           snd (final_properties C n (YList ts) props))
                    (logging ds (logging [(Info, Checking_note (dir_parts n @ [name n]))] w))))
        \<and> (YStr (filter_tag C) \<notin> set ts \<longrightarrow>
             fst (process_note E L C n w) = None
             \<and> files (snd (process_note E L C n w)) = files w
             \<and> dirs (snd (process_note E L C n w)) = dirs w))
   \<and> (tags \<noteq> [] \<and> (\<forall>t\<in>set tags. CHR '','' \<notin> set t \<and> strip t = t) \<and> (\<forall>c\<in>set pad. isspace c)
      \<longrightarrow> tags_list_of (YStr (comma_separated pad tags)) = tags_list_of (YList (map YStr tags)))"
proof (intro conjI impI)
  show "tags_list_of (YStr s) = YList (map (\<lambda>tag. YStr (strip tag)) (split_comma s))"
    by (simp add: tags_list_of_def)
  show "tags_list_of (YList xs) = YList xs"
    by (simp add: tags_list_of_def py_or_def)
  show "tags_list_of (tags_from_note props) = YList []" if "dict_get props ''tags'' = None"
    using that by (simp add: tags_from_note_def tags_list_of_def py_or_def)
next
  assume a: "\<not> list_ex (\<lambda>p. prefix p (dir_parts n @ [name n])) (exclude_dirs C)
        \<and> faults E (Read_note (dir_parts n @ [name n])) = None
        \<and> parse_note_content L (raw_text n) = (YMap props, content, ds)
        \<and> tags_list_of (tags_from_note props) = YList ts"
  then have sel: "process_note E L C n w
         = (if YStr (filter_tag C) \<in> set ts
            then write_bundle E L n (fst (final_properties C n (YList ts) props)) content
                   (logging ((Info, Processing_note (name n) (filter_tag C)) #
                             snd (final_properties C n (YList ts) props))
                      (logging ds (logging [(Info, Checking_note (dir_parts n @ [name n]))] w)))
            else (None,
                  logging [(Debug, Skip_no_tag (name n) (filter_tag C))]
                    (logging ds (logging [(Info, Checking_note (dir_parts n @ [name n]))] w))))"
    by (intro process_note_selection) simp_all
  {
    assume "YStr (filter_tag C) \<in> set ts"
    with sel show "process_note E L C n w
             = write_bundle E L n (fst (final_properties C n (YList ts) props)) content
                 (logging ((Info, Processing_note (name n) (filter_tag C)) #
                           snd (final_properties C n (YList ts) props))
                    (logging ds (logging [(Info, Checking_note (dir_parts n @ [name n]))] w)))"
      by simp
  }
  {
    assume "YStr (filter_tag C) \<notin> set ts"
    with sel show "fst (process_note E L C n w) = None"
      and "files (snd (process_note E L C n w)) = files w"
      and "dirs (snd (process_note E L C n w)) = dirs w"
      by (simp_all add: logging_def)
  }
next
  assume b: "tags \<noteq> [] \<and> (\<forall>t\<in>set tags. CHR '','' \<notin> set t \<and> strip t = t) \<and> (\<forall>c\<in>set pad. isspace c)"
  then have "map strip (split_comma (comma_separated pad tags)) = tags"
    by (intro normalise_comma_separated) simp_all
  then have m: "map YStr (map strip (split_comma (comma_separated pad tags))) = map YStr tags"
    by (simp only:)
  have "map (\<lambda>tag. YStr (strip tag)) (split_comma (comma_separated pad tags))
        = map YStr (map strip (split_comma (comma_separated pad tags)))"
    by (simp add: comp_def)
  with m have "map (\<lambda>tag. YStr (strip tag)) (split_comma (comma_separated pad tags)) = map YStr tags"
    by (simp only:)
  then show "tags_list_of (YStr (comma_separated pad tags)) = tags_list_of (YList (map YStr tags))"
    by (simp add: tags_list_of_def py_or_def)
qed

theorem tag_selection_witness:
  "tags_list_of (tags_from_note []) = YList []
   \<and> parse_note_content sample_libs (raw_text (sample_note ''---\<newline>tags: blog\<newline>---\<newline>body''))
       = (YMap [(YStr ''tags'', YStr ''blog'')], ''body'', [])
   \<and> tags_list_of (tags_from_note [(YStr ''tags'', YStr ''blog'')]) = YList [YStr ''blog'']
   \<and> process_note sample_env sample_libs sample_config
         (sample_note ''---\<newline>tags: blog\<newline>---\<newline>body'') empty_world
       = write_bundle sample_env sample_libs (sample_note ''---\<newline>tags: blog\<newline>---\<newline>body'')
           sample_properties ''body''
           (logging [(Info, Processing_note ''Foo.md'' ''blog''), (Debug, Title_set ''Foo''),
                     (Debug, Date_set sample_date)]
              (logging [] (logging [(Info, Checking_note [''Foo.md''])] empty_world)))
   \<and> fst (process_note sample_env sample_libs (sample_config\<lparr>filter_tag := ''Blog''\<rparr>)
             (sample_note ''---\<newline>tags: blog\<newline>---\<newline>body'') empty_world) = None
   \<and> dirs (snd (process_note sample_env sample_libs (sample_config\<lparr>filter_tag := ''Blog''\<rparr>)
             (sample_note ''---\<newline>tags: blog\<newline>---\<newline>body'') empty_world)) = {}
   \<and> tags_list_of (YStr ''blog, draft'') = tags_list_of (YList [YStr ''blog'', YStr ''draft''])"
proof -
  let ?n = "sample_note ''---\<newline>tags: blog\<newline>---\<newline>body''"
  let ?props = "[(YStr ''tags'', YStr ''blog'')]"
  have p: "parse_note_content sample_libs (raw_text ?n) = (YMap ?props, ''body'', [])"
    by (simp add: parse_note_content_def front_matter_match_def at_eol_def isspace_def lstrip_def
          py_or_def sample_defs)
  have t: "tags_list_of (tags_from_note ?props) = YList [YStr ''blog'']"
    by (simp add: tags_list_of_def tags_from_note_def dict_get_def strip_def lstrip_def rstrip_def
          isspace_def)
  have f: "final_properties sample_config ?n (YList [YStr ''blog'']) ?props
           = (sample_properties, [(Debug, Title_set ''Foo''), (Debug, Date_set sample_date)])"
    by (simp add: final_properties_def update_tags_def default_title_def default_date_def
          get_truthy_def dict_get_def sample_config_def sample_note_def sample_properties_def)
  have s: "\<forall>t\<in>set [''blog'', ''draft'']. CHR '','' \<notin> set t \<and> strip t = t"
    by (simp add: strip_def lstrip_def rstrip_def isspace_def)
  have c: "comma_separated '' '' [''blog'', ''draft''] = ''blog, draft''"
    by simp
  from tag_selection [where props = "[]" and tags = "[''blog'', ''draft'']" and pad = "'' ''"] s c
  have 1: "tags_list_of (tags_from_note []) = YList []"
    and 2: "tags_list_of (YStr ''blog, draft'') = tags_list_of (YList [YStr ''blog'', YStr ''draft''])"
    by (simp_all add: dict_get_def isspace_def strip_def lstrip_def rstrip_def)
  from tag_selection [where props = ?props and n = ?n and C = sample_config and E = sample_env
         and L = sample_libs and content = "''body''" and ds = "[]" and ts = "[YStr ''blog'']"
         and w = empty_world] p t f
  have 3: "process_note sample_env sample_libs sample_config ?n empty_world
       = write_bundle sample_env sample_libs ?n sample_properties ''body''
           (logging [(Info, Processing_note ''Foo.md'' ''blog''), (Debug, Title_set ''Foo''),
                     (Debug, Date_set sample_date)]
              (logging [] (logging [(Info, Checking_note [''Foo.md''])] empty_world)))"
    by (simp add: sample_config_def sample_env_def sample_note_def)
  from tag_selection [where props = ?props and n = ?n and C = "sample_config\<lparr>filter_tag := ''Blog''\<rparr>"
         and E = sample_env and L = sample_libs and content = "''body''" and ds = "[]"
         and ts = "[YStr ''blog'']" and w = empty_world] p t
  have 4: "fst (process_note sample_env sample_libs (sample_config\<lparr>filter_tag := ''Blog''\<rparr>) ?n
                  empty_world) = None"
    and 5: "dirs (snd (process_note sample_env sample_libs (sample_config\<lparr>filter_tag := ''Blog''\<rparr>) ?n
                  empty_world)) = {}"
    by (simp_all add: sample_config_def sample_env_def sample_note_def empty_world_def)
  from 1 2 3 4 5 p t show ?thesis by (simp only: simp_thms)
qed

subsection \<open>Reading back the written index file\<close>

lemma prefix_delim_append:
  assumes "prefix ''---'' (h @ t)" and "h \<noteq> []" and "last h = CHR ''\<newline>''"
  shows "prefix ''---'' h"
proof (cases h)
  case Nil
  with assms(2) show ?thesis by simp
next
  case (Cons a h1)
  note h = this
  show ?thesis
  proof (cases h1)
    case Nil
    with h assms(1,3) show ?thesis by auto
  next
    case (Cons b h2)
    note h1 = this
    show ?thesis
    proof (cases h2)
      case Nil
      with h h1 assms(1,3) show ?thesis by auto
    next
      case (Cons c h3)
      with h h1 assms(1) show ?thesis by auto
    qed
  qed
qed

lemma fm_close_found:
  "\<not> sublist ''\<newline>---'' (prev # h) \<Longrightarrow> last (prev # h) = CHR ''\<newline>'' \<Longrightarrow>
   fm_close prev (h @ ''---'' @ rest) = Some (h, dropWhile isspace rest)"
proof (induction h arbitrary: prev)
  case Nil
  then have "prev = CHR ''\<newline>''" by simp
  then show ?case by (subst fm_close.simps) (simp del: fm_close.simps)
next
  case (Cons c cs)
  from Cons.prems(1) have np: "\<not> prefix ''\<newline>---'' (prev # c # cs)"
    and ns: "\<not> sublist ''\<newline>---'' (c # cs)"
    by (simp_all add: sublist_Cons_right del: fm_close.simps)
  from Cons.prems(2) have l: "last (c # cs) = CHR ''\<newline>''" by simp
  have no: "\<not> (prev = CHR ''\<newline>'' \<and> prefix ''---'' (c # (cs @ ''---'' @ rest)))"
  proof
    assume a: "prev = CHR ''\<newline>'' \<and> prefix ''---'' (c # (cs @ ''---'' @ rest))"
    then have p: "prefix ''---'' ((c # cs) @ ''---'' @ rest)" by (simp only: append_Cons)
    have ne: "c # cs \<noteq> []" by simp
    from prefix_delim_append [OF p ne l] have "prefix ''---'' (c # cs)" .
    with a have "prefix ''\<newline>---'' (prev # c # cs)" by simp
    with np show False by blast
  qed
  have rec: "fm_close c (cs @ ''---'' @ rest) = Some (cs, dropWhile isspace rest)"
    using Cons.IH [OF ns l] .
  have "fm_close prev (c # (cs @ ''---'' @ rest))
        = map_option (\<lambda>(g, r). (c # g, r)) (fm_close c (cs @ ''---'' @ rest))"
    by (subst fm_close.simps) (simp only: no if_False list.case)
  with rec have "fm_close prev (c # (cs @ ''---'' @ rest)) = Some (c # cs, dropWhile isspace rest)"
    by (simp only: option.map prod.case)
  then show ?case by (simp only: append_Cons)
qed

lemma fm_open_nonspace:
  "s \<noteq> [] \<Longrightarrow> \<not> isspace (hd s) \<Longrightarrow> fm_open prev s = None"
  by (cases s) (auto simp: at_eol_def isspace_def)

lemma front_matter_match_emitted:
  assumes "h = [] \<or> (\<not> isspace (hd h) \<and> last h = CHR ''\<newline>'')"
    and "\<not> prefix ''---'' h" and "\<not> sublist ''\<newline>---'' h"
  shows "front_matter_match (''---\<newline>'' @ h @ ''---\<newline>\<newline>'' @ body)
         = Some (CHR ''\<newline>'' # h, dropWhile isspace body)"
proof -
  let ?rest = "''\<newline>\<newline>'' @ body"
  have nsp: "\<not> isspace CHR ''-''" by (simp add: isspace_def)
  have sp: "isspace CHR ''\<newline>''" by (simp add: isspace_def)
  have inner: "fm_open CHR ''\<newline>'' (h @ ''---'' @ ?rest) = None"
  proof (rule fm_open_nonspace)
    show "h @ ''---'' @ ?rest \<noteq> []" by simp
    show "\<not> isspace (hd (h @ ''---'' @ ?rest))"
      using assms(1) nsp by (cases h) auto
  qed
  have ns: "\<not> sublist ''\<newline>---'' (CHR ''-'' # CHR ''\<newline>'' # h)"
    using assms(2,3) by (simp add: sublist_Cons_right)
  have l: "last (CHR ''-'' # CHR ''\<newline>'' # h) = CHR ''\<newline>''"
    using assms(1) by auto
  from fm_close_found [OF ns l, of ?rest]
  have cl: "fm_close CHR ''-'' (CHR ''\<newline>'' # (h @ ''---'' @ ?rest))
            = Some (CHR ''\<newline>'' # h, dropWhile isspace ?rest)"
    by (simp only: append_Cons)
  have "fm_open CHR ''-'' (CHR ''\<newline>'' # (h @ ''---'' @ ?rest))
        = Some (CHR ''\<newline>'' # h, dropWhile isspace ?rest)"
    by (simp only: fm_open.simps sp inner cl if_True option.case at_eol_def list.case refl)
  moreover have "dropWhile isspace ?rest = dropWhile isspace body"
    using sp by simp
  ultimately show ?thesis
    by (simp add: front_matter_match_def del: fm_open.simps fm_close.simps)
qed

text \<open>
  C4, as the code has it. Let \<open>h\<close> be the header text the dumper returns for the
  properties: empty, or not starting with whitespace and ending in a newline, with no
  line that begins with \<^verbatim>\<open>---\<close>; and let the loader map it (after the newline the match
  captures before it) back to the same mapping. Then parsing the written text gives
  those properties, and the body with its leading whitespace stripped; so the body
  itself when it is empty or does not start with whitespace.
\<close>

theorem index_round_trip:
  assumes "yaml_dump L (YMap props) = h"
    and "h = [] \<or> (\<not> isspace (hd h) \<and> last h = CHR ''\<newline>'')"
    and "\<not> prefix ''---'' h" and "\<not> sublist ''\<newline>---'' h"
    and "yaml_safe_load L (CHR ''\<newline>'' # h) = Some (YMap props)"
  shows "parse_note_content L (index_text L props body) = (YMap props, lstrip body, [])
         \<and> (body = [] \<or> \<not> isspace (hd body) \<longrightarrow> lstrip body = body)"
proof
  have m: "front_matter_match (index_text L props body)
           = Some (CHR ''\<newline>'' # h, dropWhile isspace body)"
    unfolding index_text_def assms(1) using assms(2-4) by (rule front_matter_match_emitted)
  have "py_or (YMap props) (YMap []) = YMap props"
    by (cases props) (simp_all add: py_or_def)
  with m assms(5) show "parse_note_content L (index_text L props body) = (YMap props, lstrip body, [])"
    by (simp add: parse_note_content_def lstrip_def)
  show "body = [] \<or> \<not> isspace (hd body) \<longrightarrow> lstrip body = body"
    by (cases body) (auto simp: lstrip_def)
qed

theorem index_round_trip_witness:
  "yaml_dump sample_libs (YMap sample_properties) = sample_header
   \<and> \<not> isspace (hd sample_header) \<and> last sample_header = CHR ''\<newline>''
   \<and> \<not> prefix ''---'' sample_header \<and> \<not> sublist ''\<newline>---'' sample_header
   \<and> yaml_safe_load sample_libs (CHR ''\<newline>'' # sample_header) = Some (YMap sample_properties)
   \<and> parse_note_content sample_libs (index_text sample_libs sample_properties ''See ![](x.png)'')
       = (YMap sample_properties, ''See ![](x.png)'', [])"
proof -
  have a: "yaml_dump sample_libs (YMap sample_properties) = sample_header"
    by (simp add: sample_libs_def sample_yaml_dump_def)
  have b: "\<not> isspace (hd sample_header) \<and> last sample_header = CHR ''\<newline>''"
    by (simp add: sample_header_def sample_date_def isspace_def)
  have c: "\<not> prefix ''---'' sample_header"
    by (simp add: sample_header_def)
  have d: "\<not> sublist ''\<newline>---'' sample_header"
    by (simp add: sample_header_def sample_date_def sublist_Cons_right)
  have e: "yaml_safe_load sample_libs (CHR ''\<newline>'' # sample_header) = Some (YMap sample_properties)"
    by (simp add: sample_libs_def sample_yaml_load_def sample_header_def sample_date_def)
  have f: "lstrip ''See ![](x.png)'' = ''See ![](x.png)''"
    by (simp add: lstrip_def isspace_def)
  from b have b': "sample_header = [] \<or> (\<not> isspace (hd sample_header) \<and> last sample_header = CHR ''\<newline>'')"
    by blast
  from index_round_trip [OF a b' c d e, of "''See ![](x.png)''"] a b c d e f
  show ?thesis by (simp only: simp_thms)
qed

text \<open>
  The body \<^verbatim>\<open>[[ x]]\<close> of a selected note is written as \<^verbatim>\<open> x\<close>, with a leading space;
  parsing the written file gives the body \<^verbatim>\<open>x\<close>.
\<close>

theorem body_leading_whitespace_counterexample:
  "(case process_note sample_env sample_libs sample_config
           (sample_note ''---\<newline>tags: blog\<newline>---\<newline>[[ x]]'') empty_world of
      (e, w) \<Rightarrow> e = None \<and> files w (''Foo'', ''index.md'')
                          = Some (index_text sample_libs sample_properties '' x''))
   \<and> parse_note_content sample_libs (index_text sample_libs sample_properties '' x'')
     = (YMap sample_properties, ''x'', [])"
  by (simp add: run_defs sample_defs)

end
